theory Spec2Isabelle
  imports Complex_Main
begin

section \<open>Python values and errors\<close>

text \<open>
  The values the program reads from and writes to its checkpoint are the ones
  Python's \<^verbatim>\<open>json\<close> module produces: \<^verbatim>\<open>None\<close>, booleans, integers, floats,
  strings, lists and dictionaries with string keys. A dictionary is an association
  list in insertion order, looked up with \<open>map_of\<close>. The float literals
  \<^verbatim>\<open>NaN\<close> and \<^verbatim>\<open>Infinity\<close> are not represented.
\<close>

datatype json =
    JNull
  | JBool bool
  | JInt int
  | JFloat rat
  | JStr string
  | JList "json list"
  | JObj "(string \<times> json) list"

text \<open>The exceptions that the modelled code can raise or catch.\<close>

datatype py_error =
    OSError
  | JSONDecodeError
  | UnicodeDecodeError
  | KeyError
  | TypeError
  | AttributeError
  | MediaOperationFailure string

text \<open>Truth value of a Python object, as tested by \<^verbatim>\<open>if not checkpoint_data\<close>.\<close>

fun py_truthy :: "json \<Rightarrow> bool" where
  "py_truthy JNull = False"
| "py_truthy (JBool b) = b"
| "py_truthy (JInt n) = (n \<noteq> 0)"
| "py_truthy (JFloat x) = (x \<noteq> 0)"
| "py_truthy (JStr s) = (s \<noteq> [])"
| "py_truthy (JList xs) = (xs \<noteq> [])"
| "py_truthy (JObj kvs) = (kvs \<noteq> [])"

text \<open>\<^verbatim>\<open>r["key"]\<close>: a dictionary raises \<^verbatim>\<open>KeyError\<close> on a missing key; every
  other JSON value raises \<^verbatim>\<open>TypeError\<close> when subscripted with a string.\<close>

fun py_getitem :: "json \<Rightarrow> string \<Rightarrow> py_error + json" where
  "py_getitem (JObj kvs) k = (case map_of kvs k of None \<Rightarrow> Inl KeyError | Some v \<Rightarrow> Inr v)"
| "py_getitem _ k = Inl TypeError"

text \<open>\<^verbatim>\<open>d.get(key, default)\<close>: only dictionaries have the method.\<close>

fun py_get :: "json \<Rightarrow> string \<Rightarrow> json \<Rightarrow> py_error + json" where
  "py_get (JObj kvs) k d = (case map_of kvs k of None \<Rightarrow> Inr d | Some v \<Rightarrow> Inr v)"
| "py_get _ k d = Inl AttributeError"

text \<open>An argument of \<^verbatim>\<open>range\<close>: an integer (a boolean is one); anything
  else raises \<^verbatim>\<open>TypeError\<close>.\<close>

fun py_index :: "json \<Rightarrow> py_error + int" where
  "py_index (JInt n) = Inr n"
| "py_index (JBool b) = Inr (if b then 1 else 0)"
| "py_index _ = Inl TypeError"

section \<open>The file system\<close>

text \<open>
  What the program observes of a file is whether it exists, whether its size is
  zero, and what reading it as UTF-8 text and parsing it as JSON gives. A regular
  file is therefore one of: empty; non-empty UTF-8 text that parses to a JSON value;
  non-empty UTF-8 text that does not parse; bytes that are not valid UTF-8.
  A protected file is a regular file that the process can read but may neither
  write nor remove (for instance a file with the immutable attribute): for
  it \<^verbatim>\<open>os.remove\<close> and \<^verbatim>\<open>open(path, 'w')\<close> raise \<^verbatim>\<open>PermissionError\<close>, an
  \<^verbatim>\<open>OSError\<close>. A directory carries the size the operating system reports for it.
  The file system is a finite table from path strings to nodes; paths are compared
  as strings.
\<close>

datatype content = Empty | JsonText json | OtherText | Binary

datatype node = Dir nat | File content | Protected content

type_synonym fs = "(string \<times> node) list"

definition os_path_exists :: "fs \<Rightarrow> string \<Rightarrow> bool" where
  "os_path_exists fs p = (map_of fs p \<noteq> None)"

fun st_size_is_0 :: "node \<Rightarrow> bool" where
  "st_size_is_0 (Dir n) = (n = 0)"
| "st_size_is_0 (File c) = (c = Empty)"
| "st_size_is_0 (Protected c) = (c = Empty)"

text \<open>\<^verbatim>\<open>os.path.getsize(p) == 0\<close>, for a path that exists.\<close>

definition os_path_getsize_is_0 :: "fs \<Rightarrow> string \<Rightarrow> bool" where
  "os_path_getsize_is_0 fs p = (case map_of fs p of None \<Rightarrow> False | Some nd \<Rightarrow> st_size_is_0 nd)"

definition is_regular_file :: "fs \<Rightarrow> string \<Rightarrow> bool" where
  "is_regular_file fs p =
     (case map_of fs p of Some (File c) \<Rightarrow> True | Some (Protected c) \<Rightarrow> True | _ \<Rightarrow> False)"

text \<open>The paths on which \<^verbatim>\<open>os.remove\<close> succeeds.\<close>

definition removable :: "fs \<Rightarrow> string \<Rightarrow> bool" where
  "removable fs p = (case map_of fs p of Some (File c) \<Rightarrow> True | _ \<Rightarrow> False)"

definition fs_remove :: "string \<Rightarrow> fs \<Rightarrow> fs" where
  "fs_remove p fs = filter (\<lambda>e. fst e \<noteq> p) fs"


text \<open>\<^verbatim>\<open>os.path.join(a, b)\<close> on POSIX, for two components.\<close>

definition os_path_join :: "string \<Rightarrow> string \<Rightarrow> string" where
  "os_path_join a b =
     (if b \<noteq> [] \<and> hd b = CHR ''/'' then b
      else if a = [] \<or> last a = CHR ''/'' then a @ b
      else a @ ''/'' @ b)"

section \<open>Segment validation\<close>

text \<open>Decimal digits of a natural number, and the format \<^verbatim>\<open>{i:06d}\<close>: at least
  six digits, padded on the left with zeros.\<close>

fun dec :: "nat \<Rightarrow> string" where
  "dec n = (if n < 10 then [''0123456789'' ! n] else dec (n div 10) @ [''0123456789'' ! (n mod 10)])"

declare dec.simps [simp del]

definition fmt_06d :: "nat \<Rightarrow> string" where
  "fmt_06d i = replicate (6 - length (dec i)) CHR ''0'' @ dec i"

definition line_file :: "string \<Rightarrow> nat \<Rightarrow> string" where
  "line_file temp_line_audio_dir i =
     os_path_join temp_line_audio_dir (''line_'' @ fmt_06d i @ ''.wav'')"

text \<open>The test \<^verbatim>\<open>not os.path.exists(line_file) or os.path.getsize(line_file) == 0\<close>.\<close>

definition segment_missing :: "fs \<Rightarrow> string \<Rightarrow> bool" where
  "segment_missing fs p = (\<not> os_path_exists fs p \<or> os_path_getsize_is_0 fs p)"

text \<open>The loop of \<^verbatim>\<open>validate_line_segments\<close> over \<^verbatim>\<open>range(expected_line_count)\<close>,
  appending each missing index to \<^verbatim>\<open>missing_indices\<close>.\<close>

fun scan_segments :: "fs \<Rightarrow> string \<Rightarrow> nat list \<Rightarrow> nat list \<Rightarrow> nat list" where
  "scan_segments fs d [] missing_indices = missing_indices"
| "scan_segments fs d (i # is) missing_indices =
     scan_segments fs d is
       (if segment_missing fs (line_file d i) then missing_indices @ [i] else missing_indices)"

definition validate_line_segments :: "fs \<Rightarrow> string \<Rightarrow> int \<Rightarrow> bool \<times> nat list" where
  "validate_line_segments fs temp_line_audio_dir expected_line_count =
     (if \<not> os_path_exists fs temp_line_audio_dir
      then (False, [0..<nat expected_line_count])
      else let missing_indices =
                 scan_segments fs temp_line_audio_dir [0..<nat expected_line_count] []
           in (length missing_indices = 0, missing_indices))"

section \<open>The checkpoint store\<close>






text \<open>
  \<^verbatim>\<open>open(path, 'r', encoding='utf-8')\<close> followed by \<^verbatim>\<open>json.load\<close>: a directory
  cannot be opened (\<^verbatim>\<open>IsADirectoryError\<close>, an \<^verbatim>\<open>OSError\<close>); bytes that are not
  UTF-8 make the read raise \<^verbatim>\<open>UnicodeDecodeError\<close>; text that is not JSON, the
  empty text included, makes the parser raise \<^verbatim>\<open>JSONDecodeError\<close>.
\<close>

fun json_load :: "content \<Rightarrow> py_error + json" where
  "json_load Empty = Inl JSONDecodeError"
| "json_load OtherText = Inl JSONDecodeError"
| "json_load Binary = Inl UnicodeDecodeError"
| "json_load (JsonText v) = Inr v"

fun open_r_json_load :: "node \<Rightarrow> py_error + json" where
  "open_r_json_load (Dir n) = Inl OSError"
| "open_r_json_load (File c) = json_load c"
| "open_r_json_load (Protected c) = json_load c"

text \<open>The handler \<^verbatim>\<open>except (json.JSONDecodeError, IOError)\<close> returns \<^verbatim>\<open>None\<close>;
  any other exception propagates.\<close>

definition load_recovery_checkpoint :: "fs \<Rightarrow> string \<Rightarrow> py_error + json option" where
  "load_recovery_checkpoint fs temp_audio_dir =
     (let checkpoint_path = os_path_join temp_audio_dir ''recovery_checkpoint.json''
      in case map_of fs checkpoint_path of
           None \<Rightarrow> Inr None
         | Some nd \<Rightarrow>
             (case open_r_json_load nd of
                Inr v \<Rightarrow> Inr (Some v)
              | Inl e \<Rightarrow> if e = JSONDecodeError \<or> e = OSError then Inr None else Inl e))"

section \<open>The resume controller\<close>

definition can_resume_from_assembly ::
  "fs \<Rightarrow> string \<Rightarrow> string \<Rightarrow> py_error + (bool \<times> json option)" where
  "can_resume_from_assembly fs temp_audio_dir temp_line_audio_dir =
     (case load_recovery_checkpoint fs temp_audio_dir of
        Inl e \<Rightarrow> Inl e
      | Inr None \<Rightarrow> Inr (False, None)
      | Inr (Some checkpoint_data) \<Rightarrow>
          if \<not> py_truthy checkpoint_data then Inr (False, None)
          else
            (case py_get checkpoint_data ''total_lines'' (JInt 0) of
               Inl e \<Rightarrow> Inl e
             | Inr expected_lines \<Rightarrow>
                 (case py_index expected_lines of
                    Inl e \<Rightarrow> Inl e
                  | Inr n \<Rightarrow>
                      (case validate_line_segments fs temp_line_audio_dir n of
                         (all_present, missing) \<Rightarrow>
                           if \<not> all_present then Inr (False, None)
                           else Inr (True, Some checkpoint_data)))))"

section \<open>The stale-output cleaner\<close>

text \<open>\<^verbatim>\<open>os.remove\<close> deletes a regular file and raises \<^verbatim>\<open>OSError\<close> for a missing
  path, a directory or a protected file.\<close>

definition os_remove :: "fs \<Rightarrow> string \<Rightarrow> py_error + fs" where
  "os_remove fs p =
     (case map_of fs p of
        None \<Rightarrow> Inl OSError
      | Some (Dir n) \<Rightarrow> Inl OSError
      | Some (Protected c) \<Rightarrow> Inl OSError
      | Some (File c) \<Rightarrow> Inr (fs_remove p fs))"

text \<open>
  \<^verbatim>\<open>glob.glob(pathname)\<close> for a pattern whose directory part is literal: the
  entries of that directory that are not hidden and whose name matches the last
  component. Of the wildcards only \<open>*\<close> occurs in the patterns of this program.
  A directory part with one of the characters \<open>*\<close>, \<open>?\<close>, \<open>[\<close> would itself be
  expanded by \<^verbatim>\<open>glob\<close>; this is outside the model.
\<close>

definition has_magic :: "string \<Rightarrow> bool" where
  "has_magic s = (\<exists>c \<in> set s. c = CHR ''*'' \<or> c = CHR ''?'' \<or> c = CHR ''['')"

fun fnmatch :: "string \<Rightarrow> string \<Rightarrow> bool" where
  "fnmatch [] [] = True"
| "fnmatch (c # cs) [] = False"
| "fnmatch [] (p # ps) = (p = CHR ''*'' \<and> fnmatch [] ps)"
| "fnmatch (c # cs) (p # ps) =
     (if p = CHR ''*'' then fnmatch (c # cs) ps \<or> fnmatch cs (p # ps)
      else p = c \<and> fnmatch cs ps)"

definition ishidden :: "string \<Rightarrow> bool" where
  "ishidden s = (s \<noteq> [] \<and> hd s = CHR ''.'')"

definition os_path_split :: "string \<Rightarrow> string \<times> string" where
  "os_path_split p =
     (let i = length p - length (takeWhile (\<lambda>c. c \<noteq> CHR ''/'') (rev p));
          head = take i p;
          tail = drop i p
      in (if head \<noteq> [] \<and> head \<noteq> replicate (length head) CHR ''/''
          then rev (dropWhile (\<lambda>c. c = CHR ''/'') (rev head)) else head, tail))"

text \<open>The name under which a path of the table is an entry of directory \<open>d\<close>.\<close>

definition entry_name :: "string \<Rightarrow> string \<Rightarrow> string option" where
  "entry_name d p =
     (let pre = (if d = [] \<or> last d = CHR ''/'' then d else d @ ''/'');
          name = drop (length pre) p
      in if take (length pre) p = pre \<and> name \<noteq> [] \<and> CHR ''/'' \<notin> set name
         then Some name else None)"

definition listdir :: "fs \<Rightarrow> string \<Rightarrow> string list" where
  "listdir fs d = List.map_filter (entry_name d) (map fst fs)"

definition glob_glob :: "fs \<Rightarrow> string \<Rightarrow> string list" where
  "glob_glob fs pathname =
     (case os_path_split pathname of
        (dirname, basename) \<Rightarrow>
          map (os_path_join dirname)
            (filter (\<lambda>name. (ishidden basename \<or> \<not> ishidden name) \<and> fnmatch name basename)
               (listdir fs dirname)))"

text \<open>The first loop: each listed chapter file that exists is removed; a failing
  removal is reported and skipped.\<close>

fun remove_chapter_files :: "string \<Rightarrow> string list \<Rightarrow> fs \<Rightarrow> fs" where
  "remove_chapter_files d [] fs = fs"
| "remove_chapter_files d (chapter_file # rest) fs =
     (let chapter_path = os_path_join d chapter_file
      in remove_chapter_files d rest
           (if os_path_exists fs chapter_path
            then (case os_remove fs chapter_path of Inr fs' \<Rightarrow> fs' | Inl e \<Rightarrow> fs)
            else fs))"

text \<open>The inner loop over the result of one \<^verbatim>\<open>glob.glob\<close> call.\<close>

fun remove_temp_files :: "string list \<Rightarrow> fs \<Rightarrow> fs" where
  "remove_temp_files [] fs = fs"
| "remove_temp_files (temp_file # rest) fs =
     remove_temp_files rest (case os_remove fs temp_file of Inr fs' \<Rightarrow> fs' | Inl e \<Rightarrow> fs)"

text \<open>The outer loop: each pattern is expanded on the directory as it is then.\<close>

fun clean_patterns :: "string list \<Rightarrow> fs \<Rightarrow> fs" where
  "clean_patterns [] fs = fs"
| "clean_patterns (pattern # rest) fs =
     clean_patterns rest (remove_temp_files (glob_glob fs pattern) fs)"

definition temp_patterns :: "string \<Rightarrow> string list" where
  "temp_patterns temp_audio_dir =
     [os_path_join temp_audio_dir ''chapter_list_*.txt'',
      os_path_join temp_audio_dir ''*.temp.wav'',
      os_path_join temp_audio_dir ''*.concat_list.txt'']"

definition cleanup_partial_chapters :: "fs \<Rightarrow> string \<Rightarrow> string list \<Rightarrow> fs" where
  "cleanup_partial_chapters fs temp_audio_dir chapter_files =
     clean_patterns (temp_patterns temp_audio_dir)
       (remove_chapter_files temp_audio_dir chapter_files fs)"

section \<open>The phase pipeline\<close>

text \<open>
  The four media operations are functions of \<^verbatim>\<open>utils.audiobook_utils\<close>, which run
  an external tool. They are a parameter of the model: a function that takes the
  state of the outside world and the call, and either fails or gives the next state.
\<close>

datatype media_op =
    Assemble string json string string
  | AddSilence string nat
  | ConvertM4a string string
  | GenerateM4b "string list" string string string

text \<open>
  The status messages the generator yields, one constructor per message, in the order
  of the source: \<^verbatim>\<open>Assembled chapter: <file>\<close>, \<^verbatim>\<open>Completed assembling all chapters\<close>,
  \<^verbatim>\<open>Added silence to chapter: <file>\<close>, \<^verbatim>\<open>Converted to M4A: <m4a file>\<close>,
  \<^verbatim>\<open>Completed post-processing all chapters\<close>, \<^verbatim>\<open>Generating final M4B audiobook file...\<close>,
  the message that the M4B file was generated, and the message that the generation
  completed. The progress bars only display and are left out.
\<close>

datatype event =
    AssembledChapter string
  | CompletedAssembling
  | AddedSilence string
  | ConvertedToM4A string
  | CompletedPostProcessing
  | GeneratingM4B
  | M4BGenerated
  | GenerationCompleted

type_synonym 'w media = "'w \<Rightarrow> media_op \<Rightarrow> py_error + 'w"

text \<open>Each loop returns the messages yielded so far and either the exception that
  ended it or the state of the world after it.\<close>

fun assemble_chapters ::
  "'w media \<Rightarrow> json \<Rightarrow> string \<Rightarrow> string \<Rightarrow> string list \<Rightarrow> 'w \<Rightarrow> event list \<times> (py_error + 'w)" where
  "assemble_chapters ext chapter_line_map temp_line_audio_dir temp_audio_dir [] w = ([], Inr w)"
| "assemble_chapters ext chapter_line_map temp_line_audio_dir temp_audio_dir (chapter_file # rest) w =
     (case py_getitem chapter_line_map chapter_file of
        Inl e \<Rightarrow> ([], Inl e)
      | Inr lines \<Rightarrow>
          (case ext w (Assemble chapter_file lines temp_line_audio_dir temp_audio_dir) of
             Inl e \<Rightarrow> ([], Inl e)
           | Inr w' \<Rightarrow>
               (case assemble_chapters ext chapter_line_map temp_line_audio_dir temp_audio_dir rest w' of
                  (evs, r) \<Rightarrow> (AssembledChapter chapter_file # evs, r))))"

fun add_silence_to_chapters ::
  "'w media \<Rightarrow> string \<Rightarrow> string list \<Rightarrow> 'w \<Rightarrow> event list \<times> (py_error + 'w)" where
  "add_silence_to_chapters ext temp_audio_dir [] w = ([], Inr w)"
| "add_silence_to_chapters ext temp_audio_dir (chapter_file # rest) w =
     (let chapter_path = os_path_join temp_audio_dir chapter_file
      in case ext w (AddSilence chapter_path 1000) of
           Inl e \<Rightarrow> ([], Inl e)
         | Inr w' \<Rightarrow>
             (case add_silence_to_chapters ext temp_audio_dir rest w' of
                (evs, r) \<Rightarrow> (AddedSilence chapter_file # evs, r)))"

text \<open>\<^verbatim>\<open>chapter_file.split('.')[0]\<close> is the part before the first dot.\<close>

definition m4a_chapter_file :: "string \<Rightarrow> string" where
  "m4a_chapter_file chapter_file =
     (let chapter_name = takeWhile (\<lambda>c. c \<noteq> CHR ''.'') chapter_file
      in chapter_name @ ''.m4a'')"

fun convert_chapters ::
  "'w media \<Rightarrow> string \<Rightarrow> string list \<Rightarrow> string list \<Rightarrow> 'w
     \<Rightarrow> event list \<times> string list \<times> (py_error + 'w)" where
  "convert_chapters ext temp_audio_dir [] m4a_chapter_files w = ([], m4a_chapter_files, Inr w)"
| "convert_chapters ext temp_audio_dir (chapter_file # rest) m4a_chapter_files w =
     (let m4a = m4a_chapter_file chapter_file
      in case ext w (ConvertM4a (os_path_join temp_audio_dir chapter_file)
                                (os_path_join temp_audio_dir m4a)) of
           Inl e \<Rightarrow> ([], m4a_chapter_files, Inl e)
         | Inr w' \<Rightarrow>
             (case convert_chapters ext temp_audio_dir rest (m4a_chapter_files @ [m4a]) w' of
                (evs, r) \<Rightarrow> (ConvertedToM4A m4a # evs, r)))"

definition assembly_and_post_processing_phase ::
  "'w media \<Rightarrow> string list \<Rightarrow> json \<Rightarrow> string \<Rightarrow> string \<Rightarrow> string \<Rightarrow> string \<Rightarrow> bool
     \<Rightarrow> string \<Rightarrow> bool \<Rightarrow> 'w \<Rightarrow> event list \<times> (py_error + 'w)" where
  "assembly_and_post_processing_phase ext chapter_files chapter_line_map temp_audio_dir
       temp_line_audio_dir output_format narrator_gender generate_m4b_audiobook_file
       book_path add_emotion_tags w =
     (case assemble_chapters ext chapter_line_map temp_line_audio_dir temp_audio_dir chapter_files w of
        (ev1, Inl e) \<Rightarrow> (ev1, Inl e)
      | (ev1, Inr w1) \<Rightarrow>
     (case add_silence_to_chapters ext temp_audio_dir chapter_files w1 of
        (ev2, Inl e) \<Rightarrow> (ev1 @ [CompletedAssembling] @ ev2, Inl e)
      | (ev2, Inr w2) \<Rightarrow>
     (case convert_chapters ext temp_audio_dir chapter_files [] w2 of
        (ev3, m4a_chapter_files, Inl e) \<Rightarrow> (ev1 @ [CompletedAssembling] @ ev2 @ ev3, Inl e)
      | (ev3, m4a_chapter_files, Inr w3) \<Rightarrow>
          (if generate_m4b_audiobook_file
           then (case ext w3 (GenerateM4b m4a_chapter_files temp_audio_dir book_path narrator_gender) of
                   Inl e \<Rightarrow>
                     (ev1 @ [CompletedAssembling] @ ev2 @ ev3 @ [CompletedPostProcessing, GeneratingM4B],
                      Inl e)
                 | Inr w4 \<Rightarrow>
                     (ev1 @ [CompletedAssembling] @ ev2 @ ev3 @
                        [CompletedPostProcessing, GeneratingM4B, M4BGenerated, GenerationCompleted],
                      Inr w4))
           else (ev1 @ [CompletedAssembling] @ ev2 @ ev3 @
                   [CompletedPostProcessing, GenerationCompleted], Inr w3)))))"

section \<open>Example states\<close>

text \<open>A working directory \<^verbatim>\<open>temp_audio\<close> whose checkpoint file has the given content,
  with or without the unit directory \<^verbatim>\<open>temp_audio/line_segments\<close>.\<close>

definition fs_with_checkpoint :: "content \<Rightarrow> bool \<Rightarrow> fs" where
  "fs_with_checkpoint c with_units =
     [(''temp_audio'', Dir 4096), (''temp_audio/recovery_checkpoint.json'', File c)] @
     (if with_units then [(''temp_audio/line_segments'', Dir 4096)] else [])"

text \<open>The checkpoint of a run that produced no line and no chapter.\<close>

definition checkpoint_no_groups :: json where
  "checkpoint_no_groups =
     JObj [(''chapter_line_map'', JObj []), (''chapter_files'', JList []),
           (''total_lines'', JInt 0), (''results_metadata'', JList [])]"

text \<open>A checkpoint that declares no line although a chapter refers to line 0.\<close>

definition checkpoint_zero_total :: json where
  "checkpoint_zero_total =
     JObj [(''chapter_line_map'', JObj [(''ch1.wav'', JList [JInt 0])]),
           (''chapter_files'', JList [JStr ''ch1.wav'']),
           (''total_lines'', JInt 0), (''results_metadata'', JList [])]"

text \<open>A checkpoint without the field \<^verbatim>\<open>total_lines\<close>.\<close>

definition checkpoint_no_total :: json where
  "checkpoint_no_total =
     JObj [(''chapter_line_map'', JObj [(''ch1.wav'', JList [JInt 0])]),
           (''chapter_files'', JList [JStr ''ch1.wav''])]"



text \<open>A checkpoint that declares three lines, with two and with three of the segments
  on disk.\<close>

definition fs_two_of_three :: fs where
  "fs_two_of_three =
     [(''temp_audio'', Dir 4096),
      (''temp_audio/recovery_checkpoint.json'', File (JsonText (JObj [(''total_lines'', JInt 3)]))),
      (''temp_audio/line_segments'', Dir 4096),
      (''temp_audio/line_segments/line_000000.wav'', File Binary),
      (''temp_audio/line_segments/line_000001.wav'', File Binary)]"

definition fs_three_of_three :: fs where
  "fs_three_of_three =
     fs_two_of_three @ [(''temp_audio/line_segments/line_000002.wav'', File Binary)]"

text \<open>Three chapters, each made of one line.\<close>

definition chapters3 :: "string list" where
  "chapters3 = [''ch1.wav'', ''ch2.wav'', ''ch3.wav'']"

definition chapter_map3 :: json where
  "chapter_map3 = JObj [(''ch1.wav'', JList [JInt 0]), (''ch2.wav'', JList [JInt 1]),
                        (''ch3.wav'', JList [JInt 2])]"

text \<open>A media interface that fails on one given call and counts the calls that
  succeeded, and one that never fails and records the calls made.\<close>

definition fail_on :: "media_op \<Rightarrow> nat media" where
  "fail_on bad w op = (if op = bad then Inl (MediaOperationFailure ''ffmpeg'') else Inr (Suc w))"

definition recording :: "(media_op list) media" where
  "recording w op = Inr (w @ [op])"

text \<open>A working directory with the leftovers of an interrupted assembly, and the same
  directory without them.\<close>

definition fs_stale :: fs where
  "fs_stale =
     [(''temp_audio'', Dir 4096),
      (''temp_audio/recovery_checkpoint.json'', File (JsonText checkpoint_no_total)),
      (''temp_audio/ch1.wav'', File Binary),
      (''temp_audio/chapter_list_0.txt'', File OtherText),
      (''temp_audio/line_segments'', Dir 4096),
      (''temp_audio/ch1.temp.wav'', File Binary),
      (''temp_audio/line_segments/line_000000.wav'', File Binary),
      (''temp_audio/ch2.wav.concat_list.txt'', File OtherText)]"

definition fs_clean :: fs where
  "fs_clean =
     [(''temp_audio'', Dir 4096),
      (''temp_audio/recovery_checkpoint.json'', File (JsonText checkpoint_no_total)),
      (''temp_audio/line_segments'', Dir 4096),
      (''temp_audio/line_segments/line_000000.wav'', File Binary)]"

text \<open>A working directory in which the stale file of the first chapter is protected.\<close>

definition fs_protected :: fs where
  "fs_protected =
     [(''temp_audio'', Dir 4096),
      (''temp_audio/ch1.wav'', Protected Binary),
      (''temp_audio/ch2.wav'', File Binary),
      (''temp_audio/ch2.temp.wav'', Protected Binary)]"

section \<open>The specification's output name\<close>

text \<open>
  The specification words the name of a converted file as the group's identifier
  with its extension replaced by the extension of the target format. This definition
  follows those words, for comparison with \<open>m4a_chapter_file\<close>: the extension starts at
  the last dot; a name without a dot gets the extension appended.
\<close>

definition spec_replace_extension :: "string \<Rightarrow> string \<Rightarrow> string" where
  "spec_replace_extension name ext =
     (if CHR ''.'' \<in> set name
      then rev (tl (dropWhile (\<lambda>c. c \<noteq> CHR ''.'') (rev name))) @ ''.'' @ ext
      else name @ ''.'' @ ext)"

text \<open>A file name with exactly one dot, such as \<^verbatim>\<open>name.wav\<close>.\<close>

definition one_dot :: "string \<Rightarrow> bool" where
  "one_dot name = (length (filter (\<lambda>c. c = CHR ''.'') name) = 1)"

section \<open>Properties of segment validation\<close>

text \<open>The unit file of an index.\<close>

lemma line_file_example:
  "line_file ''temp_audio/line_segments'' 42 = ''temp_audio/line_segments/line_000042.wav''"
  by code_simp

lemma scan_segments_filter:
  "scan_segments fs d is acc = acc @ filter (\<lambda>i. segment_missing fs (line_file d i)) is"
  by (induction "is" arbitrary: acc) auto

text \<open>
  Claim C2, as amended. For every expected count \<open>n\<close> and every file system,
  \<open>validate_line_segments\<close> returns a missing list that is in strictly ascending
  order. If the unit directory exists, an index is in the list exactly when it is
  below \<open>n\<close> and the file \<^verbatim>\<open>line_{i:06d}.wav\<close> of the directory does not exist or has
  size zero. If the unit directory does not exist, the list is all of \<open>0, ..., n - 1\<close>.
  The first component is true exactly when the unit directory exists and the list is
  empty (so it is false for a missing directory also when \<open>n = 0\<close> and the list is
  empty).
\<close>

theorem validate_line_segments_missing:
  "validate_line_segments fs d n = (all_present, missing) \<Longrightarrow>
     (os_path_exists fs d \<longrightarrow>
        (\<forall>i. i \<in> set missing \<longleftrightarrow>
               i < nat n \<and>
               (\<not> os_path_exists fs (line_file d i) \<or> os_path_getsize_is_0 fs (line_file d i)))) \<and>
     (\<not> os_path_exists fs d \<longrightarrow> missing = [0..<nat n]) \<and>
     sorted missing \<and> distinct missing \<and>
     (all_present \<longleftrightarrow> os_path_exists fs d \<and> missing = [])"
proof (cases "os_path_exists fs d")
  case True
  assume v: "validate_line_segments fs d n = (all_present, missing)"
  from v True have m: "missing = filter (\<lambda>i. segment_missing fs (line_file d i)) [0..<nat n]"
    and a: "all_present = (missing = [])"
    by (auto simp: validate_line_segments_def scan_segments_filter Let_def)
  have "sorted missing" unfolding m by (intro sorted_wrt_filter) simp
  moreover have "distinct missing" unfolding m by simp
  ultimately show ?thesis using True a m by (auto simp: segment_missing_def)
next
  case False
  assume v: "validate_line_segments fs d n = (all_present, missing)"
  from v False have "missing = [0..<nat n]" and "\<not> all_present"
    by (auto simp: validate_line_segments_def)
  with False show ?thesis by simp
qed

text \<open>A directory with the first two of four expected segments, the third one empty
  and the fourth one absent: indices 2 and 3 are reported.\<close>

theorem validate_line_segments_missing_witness:
  "validate_line_segments
     [(''temp_audio/line_segments'', Dir 4096),
      (''temp_audio/line_segments/line_000000.wav'', File Binary),
      (''temp_audio/line_segments/line_000001.wav'', File Binary),
      (''temp_audio/line_segments/line_000002.wav'', File Empty)]
     ''temp_audio/line_segments'' 4 = (False, [2, 3]) \<and>
   sorted [2, 3 :: nat] \<and> distinct [2, 3 :: nat] \<and> (0 :: nat) \<notin> set [2, 3]"
proof -
  let ?fs = "[(''temp_audio/line_segments'', Dir 4096),
      (''temp_audio/line_segments/line_000000.wav'', File Binary),
      (''temp_audio/line_segments/line_000001.wav'', File Binary),
      (''temp_audio/line_segments/line_000002.wav'', File Empty)]"
  have h: "validate_line_segments ?fs ''temp_audio/line_segments'' 4 = (False, [2, 3])"
    by code_simp
  from validate_line_segments_missing [OF h] have "sorted [2, 3 :: nat] \<and> distinct [2, 3 :: nat]"
    by blast
  with h show ?thesis by simp
qed

text \<open>
  Claim C2 as stated fails: with no unit directory and an expected count of zero the
  missing list is empty, yet the first component is false.
\<close>

theorem validate_all_present_counterexample:
  "\<not> (fst (validate_line_segments [] ''temp_audio/line_segments'' 0) \<longleftrightarrow>
      snd (validate_line_segments [] ''temp_audio/line_segments'' 0) = [])"
  by (simp add: validate_line_segments_def os_path_exists_def)

section \<open>Properties of the checkpoint store\<close>





text \<open>
  Reading: a missing checkpoint file, a directory in its place, an empty file and a
  text that is not JSON all give \<^verbatim>\<open>None\<close>.
\<close>

lemma load_absent_or_not_json:
  "map_of fs (os_path_join t ''recovery_checkpoint.json'') = None \<or>
   map_of fs (os_path_join t ''recovery_checkpoint.json'') = Some (File Empty) \<or>
   map_of fs (os_path_join t ''recovery_checkpoint.json'') = Some (File OtherText) \<or>
   map_of fs (os_path_join t ''recovery_checkpoint.json'') = Some (Dir n)
   \<Longrightarrow> load_recovery_checkpoint fs t = Inr None"
  by (auto simp: load_recovery_checkpoint_def)

text \<open>
  Claim C6 does not hold of the code: a checkpoint file whose bytes are not valid
  UTF-8 cannot be parsed, and reading it raises \<^verbatim>\<open>UnicodeDecodeError\<close>, which the
  handler does not catch; the exception reaches the caller.
\<close>

theorem load_undecodable_checkpoint_raises:
  "load_recovery_checkpoint (fs_with_checkpoint Binary True) ''temp_audio''
     = Inl UnicodeDecodeError"
  by code_simp

section \<open>Properties of the resume controller\<close>

lemma validate_zero: "validate_line_segments fs d 0 = (os_path_exists fs d, [])"
  by (simp add: validate_line_segments_def)

lemma validate_fst_iff:
  "fst (validate_line_segments fs d n) \<longleftrightarrow>
     os_path_exists fs d \<and> snd (validate_line_segments fs d n) = []"
  by (simp add: validate_line_segments_def Let_def)

lemma can_resume_dict:
  assumes "load_recovery_checkpoint fs t = Inr (Some (JObj kvs))" and "kvs \<noteq> []"
    and "py_get (JObj kvs) ''total_lines'' (JInt 0) = Inr v" and "py_index v = Inr n"
  shows "can_resume_from_assembly fs t l =
           (if fst (validate_line_segments fs l n) then Inr (True, Some (JObj kvs))
            else Inr (False, None))"
  using assms by (simp add: can_resume_from_assembly_def split: prod.splits)

text \<open>
  Claim C1, as amended. \<open>can_resume_from_assembly\<close> returns \<open>(False, None)\<close> when
  loading gives no checkpoint, and also when the loaded value is empty or otherwise
  false in Python. For a loaded non-empty dictionary whose \<^verbatim>\<open>total_lines\<close> (zero when
  the field is absent) is the integer \<open>n\<close>, it returns \<open>(True, checkpoint)\<close> if the unit
  directory exists and validating \<open>n\<close> against it reports no missing index, and
  \<open>(False, None)\<close> otherwise.
\<close>

theorem can_resume_from_assembly_cases:
  "(load_recovery_checkpoint fs t = Inr None \<longrightarrow>
      can_resume_from_assembly fs t l = Inr (False, None)) \<and>
   (load_recovery_checkpoint fs t = Inr (Some c) \<and> \<not> py_truthy c \<longrightarrow>
      can_resume_from_assembly fs t l = Inr (False, None)) \<and>
   (load_recovery_checkpoint fs t = Inr (Some (JObj kvs)) \<and> kvs \<noteq> [] \<and>
    py_get (JObj kvs) ''total_lines'' (JInt 0) = Inr (JInt n) \<longrightarrow>
      can_resume_from_assembly fs t l =
        (if os_path_exists fs l \<and> snd (validate_line_segments fs l n) = []
         then Inr (True, Some (JObj kvs)) else Inr (False, None)))"
proof (intro conjI impI)
  assume "load_recovery_checkpoint fs t = Inr None"
  then show "can_resume_from_assembly fs t l = Inr (False, None)"
    by (simp add: can_resume_from_assembly_def)
next
  assume "load_recovery_checkpoint fs t = Inr (Some c) \<and> \<not> py_truthy c"
  then show "can_resume_from_assembly fs t l = Inr (False, None)"
    by (simp add: can_resume_from_assembly_def)
next
  assume a: "load_recovery_checkpoint fs t = Inr (Some (JObj kvs)) \<and> kvs \<noteq> [] \<and>
    py_get (JObj kvs) ''total_lines'' (JInt 0) = Inr (JInt n)"
  have "py_index (JInt n) = Inr n" by simp
  with a have "can_resume_from_assembly fs t l =
           (if fst (validate_line_segments fs l n) then Inr (True, Some (JObj kvs))
            else Inr (False, None))"
    by (intro can_resume_dict) auto
  then show "can_resume_from_assembly fs t l =
        (if os_path_exists fs l \<and> snd (validate_line_segments fs l n) = []
         then Inr (True, Some (JObj kvs)) else Inr (False, None))"
    using validate_fst_iff [of fs l n] by simp
qed

theorem can_resume_from_assembly_cases_witness:
  "can_resume_from_assembly [] ''temp_audio'' ''temp_audio/line_segments'' = Inr (False, None) \<and>
   can_resume_from_assembly (fs_with_checkpoint (JsonText (JObj [])) True)
     ''temp_audio'' ''temp_audio/line_segments'' = Inr (False, None) \<and>
   can_resume_from_assembly fs_two_of_three ''temp_audio'' ''temp_audio/line_segments''
     = Inr (False, None) \<and>
   can_resume_from_assembly fs_three_of_three ''temp_audio'' ''temp_audio/line_segments''
     = Inr (True, Some (JObj [(''total_lines'', JInt 3)]))"
proof -
  let ?t = "''temp_audio''" and ?l = "''temp_audio/line_segments''"
  let ?kvs = "[(''total_lines'', JInt 3)]"
  have l0: "load_recovery_checkpoint [] ?t = Inr None" by code_simp
  have l1: "load_recovery_checkpoint (fs_with_checkpoint (JsonText (JObj [])) True) ?t
              = Inr (Some (JObj []))" by code_simp
  have l2: "load_recovery_checkpoint fs_two_of_three ?t = Inr (Some (JObj ?kvs))" by code_simp
  have l3: "load_recovery_checkpoint fs_three_of_three ?t = Inr (Some (JObj ?kvs))" by code_simp
  have g: "py_get (JObj ?kvs) ''total_lines'' (JInt 0) = Inr (JInt 3)" by simp
  have v2: "snd (validate_line_segments fs_two_of_three ?l 3) = [2]" by code_simp
  have v3: "snd (validate_line_segments fs_three_of_three ?l 3) = []" by code_simp
  have e3: "os_path_exists fs_three_of_three ?l" by code_simp
  from can_resume_from_assembly_cases [of "[]" ?t ?l JNull "[]" 0]
       can_resume_from_assembly_cases
         [of "fs_with_checkpoint (JsonText (JObj [])) True" ?t ?l "JObj []" "[]" 0]
       can_resume_from_assembly_cases [of fs_two_of_three ?t ?l JNull ?kvs 3]
       can_resume_from_assembly_cases [of fs_three_of_three ?t ?l JNull ?kvs 3]
       l0 l1 l2 l3 g v2 v3 e3
  show ?thesis by simp
qed

text \<open>
  Claim C1 as stated fails: the checkpoint of a run without lines is loaded, and
  validating its total of zero reports no missing index, but with no unit directory
  the answer is \<open>(False, None)\<close>.
\<close>

theorem can_resume_zero_missing_counterexample:
  "load_recovery_checkpoint (fs_with_checkpoint (JsonText checkpoint_no_groups) False)
     ''temp_audio'' = Inr (Some checkpoint_no_groups) \<and>
   \<not> (can_resume_from_assembly (fs_with_checkpoint (JsonText checkpoint_no_groups) False)
         ''temp_audio'' ''temp_audio/line_segments'' = Inr (True, Some checkpoint_no_groups)
       \<longleftrightarrow>
       snd (validate_line_segments (fs_with_checkpoint (JsonText checkpoint_no_groups) False)
              ''temp_audio/line_segments'' 0) = [])"
  by code_simp

text \<open>
  Claim C3, as amended. Validation never reads the group mapping. For a declared
  total of zero it returns an empty missing list, and its first component is true
  exactly when the unit directory exists. A checkpoint that declares a total of zero
  is therefore accepted as resumable when the unit directory exists, whatever its
  group mapping refers to, and refused only when the unit directory does not exist.
\<close>

theorem zero_total_checkpoint_accepted:
  "validate_line_segments fs l 0 = (os_path_exists fs l, []) \<and>
   (load_recovery_checkpoint fs t = Inr (Some (JObj kvs)) \<and>
    map_of kvs ''total_lines'' = Some (JInt 0) \<longrightarrow>
      can_resume_from_assembly fs t l =
        (if os_path_exists fs l then Inr (True, Some (JObj kvs)) else Inr (False, None)))"
proof (intro conjI impI)
  show "validate_line_segments fs l 0 = (os_path_exists fs l, [])" by (rule validate_zero)
next
  assume a: "load_recovery_checkpoint fs t = Inr (Some (JObj kvs)) \<and>
    map_of kvs ''total_lines'' = Some (JInt 0)"
  then have ne: "kvs \<noteq> []" by auto
  from a have g: "py_get (JObj kvs) ''total_lines'' (JInt 0) = Inr (JInt 0)" by simp
  have "py_index (JInt 0) = Inr 0" by simp
  from can_resume_dict [OF _ ne g this, of fs t l] a show
    "can_resume_from_assembly fs t l =
        (if os_path_exists fs l then Inr (True, Some (JObj kvs)) else Inr (False, None))"
    by (simp add: validate_zero)
qed

theorem zero_total_checkpoint_accepted_witness:
  "can_resume_from_assembly (fs_with_checkpoint (JsonText checkpoint_zero_total) False)
     ''temp_audio'' ''temp_audio/line_segments'' = Inr (False, None) \<and>
   can_resume_from_assembly (fs_with_checkpoint (JsonText checkpoint_zero_total) True)
     ''temp_audio'' ''temp_audio/line_segments'' = Inr (True, Some checkpoint_zero_total)"
proof -
  let ?kvs = "[(''chapter_line_map'', JObj [(''ch1.wav'', JList [JInt 0])]),
           (''chapter_files'', JList [JStr ''ch1.wav'']),
           (''total_lines'', JInt 0), (''results_metadata'', JList [])]"
  have ck: "checkpoint_zero_total = JObj ?kvs" by (simp add: checkpoint_zero_total_def)
  have m: "map_of ?kvs ''total_lines'' = Some (JInt 0)" by simp
  have l1: "load_recovery_checkpoint (fs_with_checkpoint (JsonText checkpoint_zero_total) False)
              ''temp_audio'' = Inr (Some (JObj ?kvs))"
    unfolding ck [symmetric] by code_simp
  have l2: "load_recovery_checkpoint (fs_with_checkpoint (JsonText checkpoint_zero_total) True)
              ''temp_audio'' = Inr (Some (JObj ?kvs))"
    unfolding ck [symmetric] by code_simp
  have e1: "\<not> os_path_exists (fs_with_checkpoint (JsonText checkpoint_zero_total) False)
              ''temp_audio/line_segments''" by code_simp
  have e2: "os_path_exists (fs_with_checkpoint (JsonText checkpoint_zero_total) True)
              ''temp_audio/line_segments''" by code_simp
  from zero_total_checkpoint_accepted
         [of "fs_with_checkpoint (JsonText checkpoint_zero_total) False"
             "''temp_audio/line_segments''" "''temp_audio''" ?kvs]
       zero_total_checkpoint_accepted
         [of "fs_with_checkpoint (JsonText checkpoint_zero_total) True"
             "''temp_audio/line_segments''" "''temp_audio''" ?kvs]
       l1 l2 m e1 e2 ck
  show ?thesis by simp
qed

text \<open>
  Claim C3 as stated fails: the checkpoint declares a total of zero and its only
  chapter refers to line 0; with the unit directory present, validation answers
  true and the checkpoint is accepted.
\<close>

theorem zero_total_checkpoint_counterexample:
  "fst (validate_line_segments (fs_with_checkpoint (JsonText checkpoint_zero_total) True)
          ''temp_audio/line_segments'' 0) \<and>
   can_resume_from_assembly (fs_with_checkpoint (JsonText checkpoint_zero_total) True)
     ''temp_audio'' ''temp_audio/line_segments'' = Inr (True, Some checkpoint_zero_total)"
  by code_simp

text \<open>
  Claim C9. When the checkpoint file holds valid JSON whose value is false in Python
  (an empty dictionary or list, \<^verbatim>\<open>null\<close>, \<^verbatim>\<open>false\<close>, zero, the empty string), the
  value is loaded, and \<open>can_resume_from_assembly\<close> returns \<open>(False, None)\<close>, the answer
  it gives when there is no checkpoint.
\<close>

theorem falsy_checkpoint_not_resumable:
  "map_of fs (os_path_join t ''recovery_checkpoint.json'') = Some (File (JsonText v)) \<Longrightarrow>
   \<not> py_truthy v \<Longrightarrow>
   load_recovery_checkpoint fs t = Inr (Some v) \<and>
   can_resume_from_assembly fs t l = Inr (False, None)"
  by (simp add: can_resume_from_assembly_def load_recovery_checkpoint_def)

theorem falsy_checkpoint_not_resumable_witness:
  "can_resume_from_assembly (fs_with_checkpoint (JsonText (JObj [])) True)
     ''temp_audio'' ''temp_audio/line_segments'' = Inr (False, None) \<and>
   can_resume_from_assembly (fs_with_checkpoint (JsonText (JList [])) True)
     ''temp_audio'' ''temp_audio/line_segments'' = Inr (False, None) \<and>
   can_resume_from_assembly (fs_with_checkpoint (JsonText JNull) True)
     ''temp_audio'' ''temp_audio/line_segments'' = Inr (False, None)"
proof -
  have p: "os_path_join ''temp_audio'' ''recovery_checkpoint.json''
             = ''temp_audio/recovery_checkpoint.json''" by code_simp
  have m: "\<And>c. map_of (fs_with_checkpoint c True)
                (os_path_join ''temp_audio'' ''recovery_checkpoint.json'') = Some (File c)"
    unfolding p by (simp add: fs_with_checkpoint_def)
  show ?thesis
    using falsy_checkpoint_not_resumable [OF m [of "JsonText (JObj [])"]]
          falsy_checkpoint_not_resumable [OF m [of "JsonText (JList [])"]]
          falsy_checkpoint_not_resumable [OF m [of "JsonText JNull"]]
    by simp
qed

text \<open>
  Claim C10, as amended. When the loaded checkpoint is a non-empty dictionary without
  the field \<^verbatim>\<open>total_lines\<close>, the expected count is zero, no unit file is looked at, and
  \<open>can_resume_from_assembly\<close> returns \<open>(True, checkpoint)\<close> if the unit directory exists
  and \<open>(False, None)\<close> if it does not.
\<close>

theorem missing_total_lines_default:
  "load_recovery_checkpoint fs t = Inr (Some (JObj kvs)) \<Longrightarrow> kvs \<noteq> [] \<Longrightarrow>
   map_of kvs ''total_lines'' = None \<Longrightarrow>
   can_resume_from_assembly fs t l =
     (if os_path_exists fs l then Inr (True, Some (JObj kvs)) else Inr (False, None))"
proof -
  assume a: "load_recovery_checkpoint fs t = Inr (Some (JObj kvs))" and ne: "kvs \<noteq> []"
    and m: "map_of kvs ''total_lines'' = None"
  from m have g: "py_get (JObj kvs) ''total_lines'' (JInt 0) = Inr (JInt 0)" by simp
  have "py_index (JInt 0) = Inr 0" by simp
  from can_resume_dict [OF a ne g this, of l] show ?thesis by (simp add: validate_zero)
qed

theorem missing_total_lines_default_witness:
  "can_resume_from_assembly (fs_with_checkpoint (JsonText checkpoint_no_total) True)
     ''temp_audio'' ''temp_audio/line_segments'' = Inr (True, Some checkpoint_no_total)"
proof -
  let ?kvs = "[(''chapter_line_map'', JObj [(''ch1.wav'', JList [JInt 0])]),
           (''chapter_files'', JList [JStr ''ch1.wav''])]"
  have ck: "checkpoint_no_total = JObj ?kvs" by (simp add: checkpoint_no_total_def)
  have l: "load_recovery_checkpoint (fs_with_checkpoint (JsonText checkpoint_no_total) True)
              ''temp_audio'' = Inr (Some (JObj ?kvs))"
    unfolding ck [symmetric] by code_simp
  have ne: "?kvs \<noteq> []" by simp
  have m: "map_of ?kvs ''total_lines'' = None" by simp
  have e: "os_path_exists (fs_with_checkpoint (JsonText checkpoint_no_total) True)
              ''temp_audio/line_segments''" by code_simp
  from missing_total_lines_default [OF l ne m, of "''temp_audio/line_segments''"] e ck
  show ?thesis by simp
qed

text \<open>
  Claim C10 as stated fails: the same checkpoint is refused when the unit directory
  does not exist.
\<close>

theorem missing_total_lines_counterexample:
  "load_recovery_checkpoint (fs_with_checkpoint (JsonText checkpoint_no_total) False)
     ''temp_audio'' = Inr (Some checkpoint_no_total) \<and>
   can_resume_from_assembly (fs_with_checkpoint (JsonText checkpoint_no_total) False)
     ''temp_audio'' ''temp_audio/line_segments'' = Inr (False, None)"
  by code_simp

section \<open>Properties of the stale-output cleaner\<close>

lemma map_of_fs_remove: "map_of (fs_remove q fs) p = (if p = q then None else map_of fs p)"
  by (induction fs) (auto simp: fs_remove_def)

lemma removable_fs_remove:
  "removable (fs_remove q fs) p \<longleftrightarrow> p \<noteq> q \<and> removable fs p"
  by (simp add: removable_def map_of_fs_remove)

lemma try_remove:
  "(case os_remove fs q of Inr fs' \<Rightarrow> fs' | Inl e \<Rightarrow> fs) =
     (if removable fs q then fs_remove q fs else fs)"
  by (simp add: os_remove_def removable_def split: option.splits node.splits)

lemma entry_name_join: "entry_name d p = Some name \<Longrightarrow> os_path_join d name = p"
proof -
  assume a: "entry_name d p = Some name"
  define pre where "pre = (if d = [] \<or> last d = CHR ''/'' then d else d @ ''/'')"
  from a have t: "take (length pre) p = pre" and n: "name = drop (length pre) p"
    and ne: "name \<noteq> []" and ns: "CHR ''/'' \<notin> set name"
    by (auto simp: entry_name_def Let_def pre_def split: if_splits)
  from ne ns have h: "hd name \<noteq> CHR ''/''" by (cases name) auto
  have "take (length pre) p @ drop (length pre) p = p" by (rule append_take_drop_id)
  then have p: "pre @ name = p" by (simp only: t n [symmetric])
  from h ne have "os_path_join d name = pre @ name" by (auto simp: os_path_join_def pre_def)
  with p show ?thesis by simp
qed

lemma glob_glob_filter:
  "glob_glob (filter (\<lambda>e. P (fst e)) fs) pat = filter P (glob_glob fs pat)"
proof -
  obtain d b where s: "os_path_split pat = (d, b)" by (cases "os_path_split pat")
  have "map (os_path_join d) (filter Q (listdir (filter (\<lambda>e. P (fst e)) fs) d))
        = filter P (map (os_path_join d) (filter Q (listdir fs d)))" for Q
  proof (induction fs)
    case Nil
    then show ?case by (simp add: listdir_def)
  next
    case (Cons e fs)
    show ?case
    proof (cases "entry_name d (fst e)")
      case None
      with Cons show ?thesis by (simp add: listdir_def)
    next
      case (Some name)
      from entry_name_join [OF Some] have "os_path_join d name = fst e" .
      with Cons Some show ?thesis by (simp add: listdir_def)
    qed
  qed
  with s show ?thesis by (simp add: glob_glob_def)
qed

lemma glob_glob_fs_remove:
  "glob_glob (fs_remove q fs) pat = filter (\<lambda>p. p \<noteq> q) (glob_glob fs pat)"
  unfolding fs_remove_def by (rule glob_glob_filter)

text \<open>Removing files never makes a removable file appear, nor a new match of a pattern.\<close>

lemma remove_temp_files_removable:
  "removable (remove_temp_files ps fs) p \<longleftrightarrow> removable fs p \<and> p \<notin> set ps"
  by (induction ps arbitrary: fs) (auto simp: try_remove removable_fs_remove)

lemma remove_temp_files_glob:
  "set (glob_glob (remove_temp_files ps fs) pat) \<subseteq> set (glob_glob fs pat)"
proof (induction ps arbitrary: fs)
  case Nil
  show ?case by simp
next
  case (Cons q ps)
  have "set (glob_glob (if removable fs q then fs_remove q fs else fs) pat)
          \<subseteq> set (glob_glob fs pat)"
    by (auto simp: glob_glob_fs_remove)
  moreover have "set (glob_glob (remove_temp_files ps (if removable fs q then fs_remove q fs else fs)) pat)
          \<subseteq> set (glob_glob (if removable fs q then fs_remove q fs else fs) pat)"
    by (rule Cons)
  ultimately have "set (glob_glob (remove_temp_files ps (if removable fs q then fs_remove q fs else fs)) pat)
          \<subseteq> set (glob_glob fs pat)"
    by (rule order_trans [rotated])
  then show ?case by (simp add: try_remove)
qed

lemma remove_temp_files_noop:
  "\<forall>p \<in> set ps. \<not> removable fs p \<Longrightarrow> remove_temp_files ps fs = fs"
  by (induction ps arbitrary: fs) (auto simp: try_remove)

lemma clean_patterns_removable:
  "removable (clean_patterns pats fs) p \<Longrightarrow> removable fs p"
proof (induction pats arbitrary: fs)
  case Nil
  then show ?case by simp
next
  case (Cons q pats)
  from Cons.prems have "removable (clean_patterns pats (remove_temp_files (glob_glob fs q) fs)) p"
    by simp
  then have "removable (remove_temp_files (glob_glob fs q) fs) p" by (rule Cons.IH)
  then show ?case by (simp add: remove_temp_files_removable)
qed

lemma clean_patterns_glob:
  "set (glob_glob (clean_patterns pats fs) pat) \<subseteq> set (glob_glob fs pat)"
proof (induction pats arbitrary: fs)
  case Nil
  show ?case by simp
next
  case (Cons q pats)
  have "set (glob_glob (clean_patterns pats (remove_temp_files (glob_glob fs q) fs)) pat)
          \<subseteq> set (glob_glob (remove_temp_files (glob_glob fs q) fs) pat)"
    by (rule Cons)
  also have "\<dots> \<subseteq> set (glob_glob fs pat)" by (rule remove_temp_files_glob)
  finally show ?case by simp
qed

lemma clean_patterns_clean:
  "pat \<in> set pats \<Longrightarrow> p \<in> set (glob_glob (clean_patterns pats fs) pat) \<Longrightarrow>
     \<not> removable (clean_patterns pats fs) p"
proof (induction pats arbitrary: fs)
  case Nil
  then show ?case by simp
next
  case (Cons q pats)
  let ?fs1 = "remove_temp_files (glob_glob fs q) fs"
  show ?case
  proof (cases "pat = q")
    case True
    from Cons.prems(2) have "p \<in> set (glob_glob (clean_patterns pats ?fs1) q)"
      using True by simp
    then have "p \<in> set (glob_glob ?fs1 q)" using clean_patterns_glob by blast
    then have "p \<in> set (glob_glob fs q)" using remove_temp_files_glob by blast
    then have "\<not> removable ?fs1 p" by (simp add: remove_temp_files_removable)
    then have "\<not> removable (clean_patterns pats ?fs1) p"
      using clean_patterns_removable by blast
    then show ?thesis by simp
  next
    case False
    with Cons.prems have "pat \<in> set pats" by simp
    from Cons.IH [OF this, of ?fs1] Cons.prems(2) show ?thesis by simp
  qed
qed

lemma clean_patterns_noop:
  "\<forall>pat \<in> set pats. \<forall>p \<in> set (glob_glob fs pat). \<not> removable fs p \<Longrightarrow>
     clean_patterns pats fs = fs"
  by (induction pats) (auto simp: remove_temp_files_noop)

lemma remove_chapter_files_eq:
  "remove_chapter_files d cfs fs = remove_temp_files (map (os_path_join d) cfs) fs"
proof (induction cfs arbitrary: fs)
  case Nil
  show ?case by simp
next
  case (Cons cf cfs)
  have "\<not> os_path_exists fs q \<Longrightarrow> \<not> removable fs q" for q
    by (simp add: os_path_exists_def removable_def)
  then show ?case using Cons by (auto simp: Let_def try_remove)
qed


lemma remove_temp_files_kept:
  "\<not> removable fs p \<Longrightarrow> map_of (remove_temp_files ps fs) p = map_of fs p"
proof (induction ps arbitrary: fs)
  case Nil
  show ?case by simp
next
  case (Cons q ps)
  let ?fs1 = "if removable fs q then fs_remove q fs else fs"
  from Cons.prems have n: "\<not> removable ?fs1 p" by (simp add: removable_fs_remove)
  from Cons.prems have "p \<noteq> q \<or> \<not> removable fs q" by blast
  then have m: "map_of ?fs1 p = map_of fs p" by (auto simp: map_of_fs_remove)
  from Cons.IH [OF n] m show ?case by (simp add: try_remove)
qed

lemma clean_patterns_kept:
  "\<not> removable fs p \<Longrightarrow> map_of (clean_patterns pats fs) p = map_of fs p"
proof (induction pats arbitrary: fs)
  case Nil
  show ?case by simp
next
  case (Cons q pats)
  let ?fs1 = "remove_temp_files (glob_glob fs q) fs"
  from Cons.prems have n: "\<not> removable ?fs1 p" by (simp add: remove_temp_files_removable)
  from Cons.IH [OF n] remove_temp_files_kept [OF Cons.prems] show ?case by simp
qed

text \<open>
  Claim C5, as amended. For a working directory whose name contains none of the
  characters \<open>*\<close>, \<open>?\<close>, \<open>[\<close>, every state of the file system and every list of
  group file names: running \<open>cleanup_partial_chapters\<close> a second time gives the state
  the first run gave; after a run, no listed group file and no path matched by one of
  the three transient patterns is a file that \<^verbatim>\<open>os.remove\<close> can delete; what
  \<^verbatim>\<open>os.remove\<close> cannot delete (a directory, a protected file) is left as it was; and
  on a state that holds nothing the run could delete, the run changes nothing.
\<close>

theorem cleanup_partial_chapters_idempotent:
  assumes "\<not> has_magic t"
  shows "cleanup_partial_chapters (cleanup_partial_chapters fs t cfs) t cfs
           = cleanup_partial_chapters fs t cfs \<and>
         (\<forall>cf \<in> set cfs. \<not> removable (cleanup_partial_chapters fs t cfs) (os_path_join t cf)) \<and>
         (\<forall>pat \<in> set (temp_patterns t).
            \<forall>p \<in> set (glob_glob (cleanup_partial_chapters fs t cfs) pat).
              \<not> removable (cleanup_partial_chapters fs t cfs) p) \<and>
         (\<forall>p. \<not> removable fs p \<longrightarrow> map_of (cleanup_partial_chapters fs t cfs) p = map_of fs p) \<and>
         ((\<forall>cf \<in> set cfs. \<not> removable fs (os_path_join t cf)) \<and>
          (\<forall>pat \<in> set (temp_patterns t). \<forall>p \<in> set (glob_glob fs pat). \<not> removable fs p)
          \<longrightarrow> cleanup_partial_chapters fs t cfs = fs)"
proof -
  have noop: "cleanup_partial_chapters fs' t cfs = fs'"
    if "\<forall>cf \<in> set cfs. \<not> removable fs' (os_path_join t cf)"
      and "\<forall>pat \<in> set (temp_patterns t). \<forall>p \<in> set (glob_glob fs' pat). \<not> removable fs' p"
    for fs'
  proof -
    from that(1) have "remove_chapter_files t cfs fs' = fs'"
      by (simp add: remove_chapter_files_eq remove_temp_files_noop)
    with that(2) show ?thesis
      by (simp add: cleanup_partial_chapters_def clean_patterns_noop)
  qed
  let ?fs' = "cleanup_partial_chapters fs t cfs"
  have c1: "\<forall>cf \<in> set cfs. \<not> removable ?fs' (os_path_join t cf)"
  proof
    fix cf assume "cf \<in> set cfs"
    then have "\<not> removable (remove_chapter_files t cfs fs) (os_path_join t cf)"
      by (simp add: remove_chapter_files_eq remove_temp_files_removable)
    then show "\<not> removable ?fs' (os_path_join t cf)"
      unfolding cleanup_partial_chapters_def using clean_patterns_removable by blast
  qed
  have c2: "\<forall>pat \<in> set (temp_patterns t). \<forall>p \<in> set (glob_glob ?fs' pat). \<not> removable ?fs' p"
    unfolding cleanup_partial_chapters_def using clean_patterns_clean by blast
  have c3: "\<forall>p. \<not> removable fs p \<longrightarrow> map_of ?fs' p = map_of fs p"
  proof (intro allI impI)
    fix p assume n: "\<not> removable fs p"
    then have 1: "map_of (remove_chapter_files t cfs fs) p = map_of fs p"
      by (simp add: remove_chapter_files_eq remove_temp_files_kept)
    from n have "\<not> removable (remove_chapter_files t cfs fs) p"
      by (simp add: remove_chapter_files_eq remove_temp_files_removable)
    from clean_patterns_kept [OF this] 1 show "map_of ?fs' p = map_of fs p"
      by (simp add: cleanup_partial_chapters_def)
  qed
  from noop [OF c1 c2] c1 c2 c3 noop [of fs] show ?thesis by blast
qed

text \<open>The leftovers of an interrupted assembly are removed, and a second run changes
  nothing.\<close>

theorem cleanup_partial_chapters_idempotent_witness:
  "cleanup_partial_chapters fs_stale ''temp_audio'' [''ch1.wav'', ''ch2.wav''] = fs_clean \<and>
   cleanup_partial_chapters fs_clean ''temp_audio'' [''ch1.wav'', ''ch2.wav''] = fs_clean \<and>
   \<not> removable fs_clean ''temp_audio/ch1.wav''"
proof -
  let ?t = "''temp_audio''" and ?cfs = "[''ch1.wav'', ''ch2.wav'']"
  have m: "\<not> has_magic ?t" by code_simp
  have c: "cleanup_partial_chapters fs_stale ?t ?cfs = fs_clean" by code_simp
  have j: "os_path_join ?t ''ch1.wav'' = ''temp_audio/ch1.wav''" by code_simp
  from cleanup_partial_chapters_idempotent [OF m, of fs_stale ?cfs]
  have "cleanup_partial_chapters (cleanup_partial_chapters fs_stale ?t ?cfs) ?t ?cfs
          = cleanup_partial_chapters fs_stale ?t ?cfs"
    and "\<not> removable (cleanup_partial_chapters fs_stale ?t ?cfs) (os_path_join ?t ''ch1.wav'')"
    by simp_all
  with c j show ?thesis by simp
qed

text \<open>
  Claim C5 as stated fails: a listed group file and a file matching
  \<^verbatim>\<open>*.temp.wav\<close> that are protected are still there after the run; the removal
  failed and the failure was passed over.
\<close>

theorem cleanup_leaves_protected_counterexample:
  "is_regular_file
     (cleanup_partial_chapters fs_protected ''temp_audio'' [''ch1.wav'', ''ch2.wav''])
     ''temp_audio/ch1.wav'' \<and>
   ''temp_audio/ch2.temp.wav'' \<in> set (glob_glob
     (cleanup_partial_chapters fs_protected ''temp_audio'' [''ch1.wav'', ''ch2.wav''])
     (os_path_join ''temp_audio'' ''*.temp.wav'')) \<and>
   is_regular_file
     (cleanup_partial_chapters fs_protected ''temp_audio'' [''ch1.wav'', ''ch2.wav''])
     ''temp_audio/ch2.temp.wav''"
  by code_simp

section \<open>Properties of the phase pipeline\<close>

lemma assemble_chapters_append:
  "assemble_chapters ext clm l t (xs @ ys) w =
     (case assemble_chapters ext clm l t xs w of
        (evs, Inl e) \<Rightarrow> (evs, Inl e)
      | (evs, Inr w') \<Rightarrow>
          (case assemble_chapters ext clm l t ys w' of (evs', r) \<Rightarrow> (evs @ evs', r)))"
  by (induction xs arbitrary: w) (auto split: sum.splits prod.splits)

lemma assemble_chapters_events:
  "assemble_chapters ext clm l t xs w = (evs, Inr w') \<Longrightarrow> evs = map AssembledChapter xs"
  by (induction xs arbitrary: w evs) (auto split: sum.splits prod.splits)

lemma add_silence_append:
  "add_silence_to_chapters ext t (xs @ ys) w =
     (case add_silence_to_chapters ext t xs w of
        (evs, Inl e) \<Rightarrow> (evs, Inl e)
      | (evs, Inr w') \<Rightarrow>
          (case add_silence_to_chapters ext t ys w' of (evs', r) \<Rightarrow> (evs @ evs', r)))"
  by (induction xs arbitrary: w) (auto simp: Let_def split: sum.splits prod.splits)

lemma add_silence_events:
  "add_silence_to_chapters ext t xs w = (evs, Inr w') \<Longrightarrow> evs = map AddedSilence xs"
  by (induction xs arbitrary: w evs) (auto simp: Let_def split: sum.splits prod.splits)

lemma convert_chapters_append:
  "convert_chapters ext t (xs @ ys) acc w =
     (case convert_chapters ext t xs acc w of
        (evs, names, Inl e) \<Rightarrow> (evs, names, Inl e)
      | (evs, names, Inr w') \<Rightarrow>
          (case convert_chapters ext t ys names w' of (evs', r) \<Rightarrow> (evs @ evs', r)))"
  by (induction xs arbitrary: w acc) (auto simp: Let_def split: sum.splits prod.splits)

lemma convert_chapters_events:
  "convert_chapters ext t xs acc w = (evs, names, Inr w') \<Longrightarrow>
     evs = map (\<lambda>cf. ConvertedToM4A (m4a_chapter_file cf)) xs \<and>
     names = acc @ map m4a_chapter_file xs"
proof (induction xs arbitrary: w evs acc)
  case Nil
  then show ?case by simp
next
  case (Cons x xs)
  from Cons.prems obtain w1 evs1 where
    r: "convert_chapters ext t xs (acc @ [m4a_chapter_file x]) w1 = (evs1, names, Inr w')"
    and e: "evs = ConvertedToM4A (m4a_chapter_file x) # evs1"
    by (auto simp: Let_def split: sum.splits prod.splits)
  from Cons.IH [OF r] e show ?case by simp
qed

lemma convert_chapters_recording:
  "convert_chapters recording t xs acc w =
     (map (\<lambda>cf. ConvertedToM4A (m4a_chapter_file cf)) xs, acc @ map m4a_chapter_file xs,
      Inr (w @ map (\<lambda>cf. ConvertM4a (os_path_join t cf) (os_path_join t (m4a_chapter_file cf))) xs))"
  by (induction xs arbitrary: w acc) (auto simp: Let_def recording_def)



lemma assemble_chapters_fail_at:
  "j < length cfs \<Longrightarrow> assemble_chapters ext clm l t (take j cfs) w = (evs, Inr wj) \<Longrightarrow>
   py_getitem clm (cfs ! j) = Inr lines \<Longrightarrow> ext wj (Assemble (cfs ! j) lines l t) = Inl e \<Longrightarrow>
   assemble_chapters ext clm l t cfs w = (map AssembledChapter (take j cfs), Inl e)"
proof (induction cfs arbitrary: j w evs)
  case Nil
  then show ?case by simp
next
  case (Cons x xs)
  show ?case
  proof (cases j)
    case 0
    with Cons.prems show ?thesis by simp
  next
    case (Suc k)
    with Cons.prems obtain ls w1 evs1 where g: "py_getitem clm x = Inr ls"
      and x: "ext w (Assemble x ls l t) = Inr w1"
      and r: "assemble_chapters ext clm l t (take k xs) w1 = (evs1, Inr wj)"
      by (auto split: sum.splits prod.splits)
    from Cons.prems Suc have k: "k < length xs" and gk: "py_getitem clm (xs ! k) = Inr lines"
      and ek: "ext wj (Assemble (xs ! k) lines l t) = Inl e"
      by simp_all
    from Cons.IH [OF k r gk ek] g x Suc show ?thesis by simp
  qed
qed

lemma add_silence_fail_at:
  "j < length cfs \<Longrightarrow> add_silence_to_chapters ext t (take j cfs) w = (evs, Inr wj) \<Longrightarrow>
   ext wj (AddSilence (os_path_join t (cfs ! j)) 1000) = Inl e \<Longrightarrow>
   add_silence_to_chapters ext t cfs w = (map AddedSilence (take j cfs), Inl e)"
proof (induction cfs arbitrary: j w evs)
  case Nil
  then show ?case by simp
next
  case (Cons x xs)
  show ?case
  proof (cases j)
    case 0
    with Cons.prems show ?thesis by (simp add: Let_def)
  next
    case (Suc k)
    with Cons.prems obtain w1 evs1 where
      x: "ext w (AddSilence (os_path_join t x) 1000) = Inr w1"
      and r: "add_silence_to_chapters ext t (take k xs) w1 = (evs1, Inr wj)"
      by (auto simp: Let_def split: sum.splits prod.splits)
    from Cons.prems Suc have k: "k < length xs"
      and ek: "ext wj (AddSilence (os_path_join t (xs ! k)) 1000) = Inl e"
      by simp_all
    from Cons.IH [OF k r ek] x Suc show ?thesis by (simp add: Let_def)
  qed
qed

lemma convert_chapters_fail_at:
  "j < length cfs \<Longrightarrow> convert_chapters ext t (take j cfs) acc w = (evs, names, Inr wj) \<Longrightarrow>
   ext wj (ConvertM4a (os_path_join t (cfs ! j)) (os_path_join t (m4a_chapter_file (cfs ! j))))
     = Inl e \<Longrightarrow>
   convert_chapters ext t cfs acc w
     = (map (\<lambda>cf. ConvertedToM4A (m4a_chapter_file cf)) (take j cfs), names, Inl e)"
proof (induction cfs arbitrary: j w evs acc)
  case Nil
  then show ?case by simp
next
  case (Cons x xs)
  show ?case
  proof (cases j)
    case 0
    with Cons.prems show ?thesis by (simp add: Let_def)
  next
    case (Suc k)
    with Cons.prems obtain w1 evs1 where
      x: "ext w (ConvertM4a (os_path_join t x) (os_path_join t (m4a_chapter_file x))) = Inr w1"
      and r: "convert_chapters ext t (take k xs) (acc @ [m4a_chapter_file x]) w1
                = (evs1, names, Inr wj)"
      by (auto simp: Let_def split: sum.splits prod.splits)
    from Cons.prems Suc have k: "k < length xs"
      and ek: "ext wj (ConvertM4a (os_path_join t (xs ! k))
                                  (os_path_join t (m4a_chapter_file (xs ! k)))) = Inl e"
      by simp_all
    from Cons.IH [OF k r ek] x Suc show ?thesis by (simp add: Let_def)
  qed
qed


text \<open>
  Claim C7. When a media operation fails on the group at position \<open>j\<close>, the run ends
  with that failure, and the messages yielded are exactly: while assembling, the
  message of each of the \<open>j\<close> groups before it; while silence is added, the messages
  of all groups for assembling, the completion of assembling, and the message of
  each of the \<open>j\<close> groups before it; while converting, in addition the silence
  messages of all groups and the conversion message of each of the \<open>j\<close> groups
  before it. No message is yielded for the failing call, a later group or a later
  state. A failure on the second group while silence is added thus leaves all
  assembling messages and the first group's silence message.
\<close>

theorem pipeline_aborts_at_first_failure:
  "(j < length cfs \<and>
    assemble_chapters ext clm l t (take j cfs) w = (evs, Inr wj) \<and>
    py_getitem clm (cfs ! j) = Inr lines \<and>
    ext wj (Assemble (cfs ! j) lines l t) = Inl e \<longrightarrow>
      assembly_and_post_processing_phase ext cfs clm t l fmt gender m4b book tags w
        = (map AssembledChapter (take j cfs), Inl e)) \<and>
   (j < length cfs \<and>
    assemble_chapters ext clm l t cfs w = (evs, Inr wa) \<and>
    add_silence_to_chapters ext t (take j cfs) wa = (evs', Inr wj) \<and>
    ext wj (AddSilence (os_path_join t (cfs ! j)) 1000) = Inl e \<longrightarrow>
      assembly_and_post_processing_phase ext cfs clm t l fmt gender m4b book tags w
        = (map AssembledChapter cfs @ [CompletedAssembling] @ map AddedSilence (take j cfs), Inl e)) \<and>
   (j < length cfs \<and>
    assemble_chapters ext clm l t cfs w = (evs, Inr wa) \<and>
    add_silence_to_chapters ext t cfs wa = (evs', Inr ws) \<and>
    convert_chapters ext t (take j cfs) [] ws = (evs'', names, Inr wj) \<and>
    ext wj (ConvertM4a (os_path_join t (cfs ! j)) (os_path_join t (m4a_chapter_file (cfs ! j))))
      = Inl e \<longrightarrow>
      assembly_and_post_processing_phase ext cfs clm t l fmt gender m4b book tags w
        = (map AssembledChapter cfs @ [CompletedAssembling] @ map AddedSilence cfs @
           map (\<lambda>cf. ConvertedToM4A (m4a_chapter_file cf)) (take j cfs), Inl e))"
proof (intro conjI impI)
  assume a: "j < length cfs \<and>
    assemble_chapters ext clm l t (take j cfs) w = (evs, Inr wj) \<and>
    py_getitem clm (cfs ! j) = Inr lines \<and>
    ext wj (Assemble (cfs ! j) lines l t) = Inl e"
  from a have p1: "j < length cfs" by (rule conjunct1)
  from a have p2: "assemble_chapters ext clm l t (take j cfs) w = (evs, Inr wj)" by blast
  from a have p3: "py_getitem clm (cfs ! j) = Inr lines" by blast
  from a have p4: "ext wj (Assemble (cfs ! j) lines l t) = Inl e" by blast
  from assemble_chapters_fail_at [OF p1 p2 p3 p4]
  show "assembly_and_post_processing_phase ext cfs clm t l fmt gender m4b book tags w
        = (map AssembledChapter (take j cfs), Inl e)"
    by (simp add: assembly_and_post_processing_phase_def)
next
  assume a: "j < length cfs \<and>
    assemble_chapters ext clm l t cfs w = (evs, Inr wa) \<and>
    add_silence_to_chapters ext t (take j cfs) wa = (evs', Inr wj) \<and>
    ext wj (AddSilence (os_path_join t (cfs ! j)) 1000) = Inl e"
  from a have p1: "j < length cfs" by (rule conjunct1)
  from a have p2: "assemble_chapters ext clm l t cfs w = (evs, Inr wa)" by blast
  from a have p3: "add_silence_to_chapters ext t (take j cfs) wa = (evs', Inr wj)" by blast
  from a have p4: "ext wj (AddSilence (os_path_join t (cfs ! j)) 1000) = Inl e" by blast
  from p2 assemble_chapters_events [OF p2]
  have 1: "assemble_chapters ext clm l t cfs w = (map AssembledChapter cfs, Inr wa)" by simp
  note 2 = add_silence_fail_at [OF p1 p3 p4]
  from 1 2 show "assembly_and_post_processing_phase ext cfs clm t l fmt gender m4b book tags w
        = (map AssembledChapter cfs @ [CompletedAssembling] @ map AddedSilence (take j cfs), Inl e)"
    by (simp add: assembly_and_post_processing_phase_def)
next
  assume a: "j < length cfs \<and>
    assemble_chapters ext clm l t cfs w = (evs, Inr wa) \<and>
    add_silence_to_chapters ext t cfs wa = (evs', Inr ws) \<and>
    convert_chapters ext t (take j cfs) [] ws = (evs'', names, Inr wj) \<and>
    ext wj (ConvertM4a (os_path_join t (cfs ! j)) (os_path_join t (m4a_chapter_file (cfs ! j))))
      = Inl e"
  from a have p1: "j < length cfs" by (rule conjunct1)
  from a have p2: "assemble_chapters ext clm l t cfs w = (evs, Inr wa)" by blast
  from a have p3: "add_silence_to_chapters ext t cfs wa = (evs', Inr ws)" by blast
  from a have p4: "convert_chapters ext t (take j cfs) [] ws = (evs'', names, Inr wj)" by blast
  from a have p5: "ext wj (ConvertM4a (os_path_join t (cfs ! j))
                     (os_path_join t (m4a_chapter_file (cfs ! j)))) = Inl e" by blast
  from p2 assemble_chapters_events [OF p2]
  have 1: "assemble_chapters ext clm l t cfs w = (map AssembledChapter cfs, Inr wa)" by simp
  from p3 add_silence_events [OF p3]
  have 2: "add_silence_to_chapters ext t cfs wa = (map AddedSilence cfs, Inr ws)" by simp
  note 3 = convert_chapters_fail_at [OF p1 p4 p5]
  from 1 2 3 show "assembly_and_post_processing_phase ext cfs clm t l fmt gender m4b book tags w
        = (map AssembledChapter cfs @ [CompletedAssembling] @ map AddedSilence cfs @
           map (\<lambda>cf. ConvertedToM4A (m4a_chapter_file cf)) (take j cfs), Inl e)"
    by (simp add: assembly_and_post_processing_phase_def)
qed


text \<open>Three chapters: a failure on the second one while silence is added, on the
  third one while assembling, on the first one while converting.\<close>

theorem pipeline_aborts_at_first_failure_witness:
  "assembly_and_post_processing_phase
     (fail_on (AddSilence ''temp_audio/ch2.wav'' 1000)) chapters3 chapter_map3
     ''temp_audio'' ''temp_audio/line_segments'' ''m4a'' ''male'' False [] False 0
   = ([AssembledChapter ''ch1.wav'', AssembledChapter ''ch2.wav'', AssembledChapter ''ch3.wav'',
       CompletedAssembling, AddedSilence ''ch1.wav''],
      Inl (MediaOperationFailure ''ffmpeg'')) \<and>
   assembly_and_post_processing_phase
     (fail_on (Assemble ''ch3.wav'' (JList [JInt 2]) ''temp_audio/line_segments'' ''temp_audio''))
     chapters3 chapter_map3
     ''temp_audio'' ''temp_audio/line_segments'' ''m4a'' ''male'' False [] False 0
   = ([AssembledChapter ''ch1.wav'', AssembledChapter ''ch2.wav''],
      Inl (MediaOperationFailure ''ffmpeg'')) \<and>
   assembly_and_post_processing_phase
     (fail_on (ConvertM4a ''temp_audio/ch1.wav'' ''temp_audio/ch1.m4a'')) chapters3 chapter_map3
     ''temp_audio'' ''temp_audio/line_segments'' ''m4a'' ''male'' False [] False 0
   = ([AssembledChapter ''ch1.wav'', AssembledChapter ''ch2.wav'', AssembledChapter ''ch3.wav'',
       CompletedAssembling,
       AddedSilence ''ch1.wav'', AddedSilence ''ch2.wav'', AddedSilence ''ch3.wav''],
      Inl (MediaOperationFailure ''ffmpeg''))"
proof -
  let ?t = "''temp_audio''" and ?l = "''temp_audio/line_segments''"
  let ?e = "MediaOperationFailure ''ffmpeg''"
  let ?A = "[AssembledChapter ''ch1.wav'', AssembledChapter ''ch2.wav'', AssembledChapter ''ch3.wav'']"
  let ?S = "[AddedSilence ''ch1.wav'', AddedSilence ''ch2.wav'', AddedSilence ''ch3.wav'']"
  have len: "1 < length chapters3" "2 < length chapters3" "0 < length chapters3"
    by (simp_all add: chapters3_def)
  \<comment> \<open>the second group fails while silence is added\<close>
  let ?ext1 = "fail_on (AddSilence ''temp_audio/ch2.wav'' 1000)"
  have s1: "assemble_chapters ?ext1 chapter_map3 ?l ?t chapters3 0 = (?A, Inr 3)"
    by code_simp
  have s2: "add_silence_to_chapters ?ext1 ?t (take 1 chapters3) 3 = ([AddedSilence ''ch1.wav''], Inr 4)"
    by code_simp
  have s3: "?ext1 4 (AddSilence (os_path_join ?t (chapters3 ! 1)) 1000) = Inl ?e"
    by code_simp
  have r1: "map AssembledChapter chapters3 @ [CompletedAssembling] @ map AddedSilence (take 1 chapters3)
              = ?A @ [CompletedAssembling, AddedSilence ''ch1.wav'']"
    by (simp add: chapters3_def)
  from pipeline_aborts_at_first_failure
         [where j = 1 and cfs = chapters3 and ext = ?ext1 and clm = chapter_map3 and l = ?l
            and t = ?t and w = 0 and evs = ?A and wa = 3 and evs' = "[AddedSilence ''ch1.wav'']"
            and wj = 4 and e = ?e and fmt = "''m4a''" and gender = "''male''" and m4b = False
            and book = "[]" and tags = False]
       len s1 s2 s3
  have c1: "assembly_and_post_processing_phase ?ext1 chapters3 chapter_map3 ?t ?l ''m4a'' ''male''
              False [] False 0
            = (map AssembledChapter chapters3 @ [CompletedAssembling] @
                 map AddedSilence (take 1 chapters3), Inl ?e)"
    by blast
  \<comment> \<open>the third group fails while it is assembled\<close>
  let ?ext2 = "fail_on (Assemble ''ch3.wav'' (JList [JInt 2]) ?l ?t)"
  have a1: "assemble_chapters ?ext2 chapter_map3 ?l ?t (take 2 chapters3) 0
              = ([AssembledChapter ''ch1.wav'', AssembledChapter ''ch2.wav''], Inr 2)"
    by code_simp
  have a2: "py_getitem chapter_map3 (chapters3 ! 2) = Inr (JList [JInt 2])"
    by code_simp
  have a3: "?ext2 2 (Assemble (chapters3 ! 2) (JList [JInt 2]) ?l ?t) = Inl ?e"
    by code_simp
  have r2: "map AssembledChapter (take 2 chapters3)
              = [AssembledChapter ''ch1.wav'', AssembledChapter ''ch2.wav'']"
    by (simp add: chapters3_def)
  from pipeline_aborts_at_first_failure
         [where j = 2 and cfs = chapters3 and ext = ?ext2 and clm = chapter_map3 and l = ?l
            and t = ?t and w = 0
            and evs = "[AssembledChapter ''ch1.wav'', AssembledChapter ''ch2.wav'']"
            and wj = 2 and lines = "JList [JInt 2]" and e = ?e and fmt = "''m4a''"
            and gender = "''male''" and m4b = False and book = "[]" and tags = False]
       len a1 a2 a3
  have c2: "assembly_and_post_processing_phase ?ext2 chapters3 chapter_map3 ?t ?l ''m4a'' ''male''
              False [] False 0
            = (map AssembledChapter (take 2 chapters3), Inl ?e)"
    by blast
  \<comment> \<open>the first group fails while it is converted\<close>
  let ?ext3 = "fail_on (ConvertM4a ''temp_audio/ch1.wav'' ''temp_audio/ch1.m4a'')"
  have v1: "assemble_chapters ?ext3 chapter_map3 ?l ?t chapters3 0 = (?A, Inr 3)"
    by code_simp
  have v2: "add_silence_to_chapters ?ext3 ?t chapters3 3 = (?S, Inr 6)"
    by code_simp
  have v3: "convert_chapters ?ext3 ?t (take 0 chapters3) [] 6 = ([], [], Inr 6)"
    by code_simp
  have v4: "?ext3 6 (ConvertM4a (os_path_join ?t (chapters3 ! 0))
                       (os_path_join ?t (m4a_chapter_file (chapters3 ! 0)))) = Inl ?e"
    by code_simp
  have r3: "map AssembledChapter chapters3 @ [CompletedAssembling] @ map AddedSilence chapters3 @
              map (\<lambda>cf. ConvertedToM4A (m4a_chapter_file cf)) (take 0 chapters3)
            = ?A @ [CompletedAssembling] @ ?S"
    by (simp add: chapters3_def)
  from pipeline_aborts_at_first_failure
         [where j = 0 and cfs = chapters3 and ext = ?ext3 and clm = chapter_map3 and l = ?l
            and t = ?t and w = 0 and evs = ?A and wa = 3 and evs' = ?S and ws = 6
            and evs'' = "[]" and names = "[]" and wj = 6 and e = ?e and fmt = "''m4a''"
            and gender = "''male''" and m4b = False and book = "[]" and tags = False]
       len v1 v2 v3 v4
  have c3: "assembly_and_post_processing_phase ?ext3 chapters3 chapter_map3 ?t ?l ''m4a'' ''male''
              False [] False 0
            = (map AssembledChapter chapters3 @ [CompletedAssembling] @ map AddedSilence chapters3 @
                 map (\<lambda>cf. ConvertedToM4A (m4a_chapter_file cf)) (take 0 chapters3), Inl ?e)"
    by blast
  show ?thesis unfolding c1 c2 c3 r1 r2 r3 by simp
qed


lemma takeWhile_stem:
  "CHR ''.'' \<notin> set stem \<Longrightarrow> takeWhile (\<lambda>c. c \<noteq> CHR ''.'') (stem @ CHR ''.'' # suffix) = stem"
  by (induction stem) auto

lemma dropWhile_to_dot:
  "CHR ''.'' \<notin> set xs \<Longrightarrow>
     dropWhile (\<lambda>c. c \<noteq> CHR ''.'') (xs @ CHR ''.'' # ys) = CHR ''.'' # ys"
  by (induction xs) auto

lemma spec_replace_extension_single_dot:
  "CHR ''.'' \<notin> set suffix \<Longrightarrow>
     spec_replace_extension (stem @ CHR ''.'' # suffix) ext = stem @ CHR ''.'' # ext"
  using dropWhile_to_dot [of "rev suffix" "rev stem"]
  by (simp add: spec_replace_extension_def)

lemma one_dot_split:
  assumes "one_dot name"
  obtains stem suffix where "name = stem @ CHR ''.'' # suffix"
    and "CHR ''.'' \<notin> set stem" and "CHR ''.'' \<notin> set suffix"
proof -
  let ?P = "\<lambda>c. c \<noteq> CHR ''.''"
  let ?D = "\<lambda>c. c = CHR ''.''"
  define stem where "stem = takeWhile ?P name"
  define rest where "rest = dropWhile ?P name"
  have n: "stem @ rest = name" by (simp add: stem_def rest_def)
  have s: "CHR ''.'' \<notin> set stem" unfolding stem_def by (auto dest: set_takeWhileD)
  then have fs: "filter ?D stem = []" by (auto simp: filter_empty_conv)
  from assms have "length (filter ?D name) = 1" by (simp add: one_dot_def)
  then have "length (filter ?D (stem @ rest)) = 1" by (simp only: n)
  with fs have fr: "length (filter ?D rest) = 1" by simp
  then have ne: "rest \<noteq> []" by auto
  then have h: "hd rest = CHR ''.''"
    unfolding rest_def using hd_dropWhile [of ?P name] by simp
  from ne h obtain suffix where r: "rest = CHR ''.'' # suffix" by (cases rest) auto
  with fr have "filter ?D suffix = []" by simp
  then have x: "CHR ''.'' \<notin> set suffix" by (auto simp: filter_empty_conv)
  from n r have "name = stem @ CHR ''.'' # suffix" by simp
  then show thesis using s x by (rule that)
qed

lemma m4a_chapter_file_one_dot:
  "one_dot cf \<Longrightarrow> m4a_chapter_file cf = spec_replace_extension cf ''m4a''"
proof -
  assume "one_dot cf"
  then obtain stem suffix where c: "cf = stem @ CHR ''.'' # suffix"
    and s: "CHR ''.'' \<notin> set stem" and x: "CHR ''.'' \<notin> set suffix"
    by (rule one_dot_split)
  from s have "m4a_chapter_file (stem @ CHR ''.'' # suffix) = stem @ ''.m4a''"
    by (simp add: m4a_chapter_file_def takeWhile_stem)
  moreover from x have "spec_replace_extension (stem @ CHR ''.'' # suffix) ''m4a'' = stem @ ''.m4a''"
    by (simp add: spec_replace_extension_single_dot)
  ultimately show ?thesis using c by simp
qed

text \<open>
  On file names with exactly one dot the conversion loop does what the specification
  says: the collected names are, in group order, the file names with the extension
  replaced by \<^verbatim>\<open>m4a\<close>, one conversion message each.
\<close>

lemma convert_chapters_one_dot_names:
  assumes "\<forall>cf \<in> set cfs. one_dot cf"
    and "convert_chapters ext t cfs [] w = (evs, names, Inr w')"
  shows "names = map (\<lambda>cf. spec_replace_extension cf ''m4a'') cfs \<and>
         evs = map ConvertedToM4A names"
proof -
  from convert_chapters_events [OF assms(2)]
  have e: "evs = map (\<lambda>cf. ConvertedToM4A (m4a_chapter_file cf)) cfs"
    and n: "names = map m4a_chapter_file cfs" by simp_all
  from assms(1) have "map m4a_chapter_file cfs = map (\<lambda>cf. spec_replace_extension cf ''m4a'') cfs"
    by (intro map_cong refl) (simp add: m4a_chapter_file_one_dot)
  with e n show ?thesis by simp
qed


end
